theory Spec2Isabelle
  imports Main "HOL-Library.AList" "HOL-Library.Word"
begin

section \<open>Values of the program\<close>

text \<open>
  The adapter \<^verbatim>\<open>dynamo-down.js\<close> works on JavaScript values. The values that reach
  \<^verbatim>\<open>serialize\<close> are modelled by one datatype. Numbers are IEEE doubles in the runtime;
  here their type is a parameter \<open>'n\<close>, and the runtime functions that format and read
  them are fields of the record \<open>platform\<close> below. An object is the list of its own
  enumerable properties in the order of \<^verbatim>\<open>Object.keys\<close>. \<open>JOther t\<close> is any other
  value, \<open>t\<close> being what \<^verbatim>\<open>value.constructor.name\<close> evaluates to (a function, a
  date, a class instance).
\<close>

type_synonym bytes = "8 word list"

datatype 'n jsval =
    JUndefined
  | JNull
  | JStr string
  | JBuf bytes
  | JBool bool
  | JNum 'n
  | JArr "'n jsval list"
  | JObj "(string \<times> 'n jsval) list"
  | JOther string

text \<open>
  The wire form: an object with one property, the type tag. \<open>Unknown t\<close> is an
  attribute value whose first key \<open>t\<close> is none of the seven tags.
\<close>

datatype attr =
    NULL bool
  | S string
  | B string
  | BOOL bool
  | N string
  | L "attr list"
  | M "(string \<times> attr) list"
  | Unknown string

type_synonym item = "(string \<times> attr) list"

text \<open>
  What a call can fail with: \<^verbatim>\<open>new Error(message)\<close>, the runtime's \<^verbatim>\<open>TypeError\<close> and
  \<^verbatim>\<open>SyntaxError\<close>, and an error object \<open>'e\<close> handed over by the provider.
\<close>

datatype 'e error =
    Error string
  | TypeError string
  | SyntaxError string
  | ProviderError 'e

text \<open>
  The functions of the runtime that the source calls: \<^verbatim>\<open>String(value)\<close> on a number,
  \<^verbatim>\<open>parseFloat\<close>, \<^verbatim>\<open>buffer.toString("base64")\<close>, \<^verbatim>\<open>Buffer(text, "base64")\<close>, the
  truth value of a number (false for zero and NaN), \<^verbatim>\<open>JSON.parse\<close> (\<open>None\<close> when it
  throws), \<^verbatim>\<open>JSON.stringify\<close> and \<^verbatim>\<open>new Buffer(value)\<close> (\<open>None\<close> when it throws).
\<close>

record 'n platform =
  String_of :: "'n \<Rightarrow> string"
  parseFloat :: "string \<Rightarrow> 'n"
  toBase64 :: "bytes \<Rightarrow> string"
  fromBase64 :: "string \<Rightarrow> bytes"
  num_truthy :: "'n \<Rightarrow> bool"
  JSON_parse :: "string \<Rightarrow> 'n jsval option"
  JSON_stringify :: "'n jsval \<Rightarrow> string"
  new_Buffer :: "'n jsval \<Rightarrow> 'n jsval option"

section \<open>The value codec\<close>

text \<open>
  \<^verbatim>\<open>serialize\<close> (lines 3 to 23). \<open>serialize_list\<close> is \<^verbatim>\<open>value.map(serialize)\<close>,
  \<open>serialize_reduce\<close> is the local \<^verbatim>\<open>reduce\<close> with its accumulator: \<^verbatim>\<open>acc[key] = ...\<close>
  is \<^const>\<open>AList.update\<close>. A \<^verbatim>\<open>throw\<close> is \<open>Inl\<close>, and the first one ends the call.
\<close>

fun serialize :: "'n platform \<Rightarrow> 'n jsval \<Rightarrow> 'e error + attr"
  and serialize_list :: "'n platform \<Rightarrow> 'n jsval list \<Rightarrow> 'e error + attr list"
  and serialize_reduce :: "'n platform \<Rightarrow> (string \<times> 'n jsval) list \<Rightarrow> item \<Rightarrow> 'e error + item"
where
  "serialize P JUndefined = Inr (NULL True)"
| "serialize P JNull = Inr (NULL True)"
| "serialize P (JStr s) = (if s = [] then Inr (NULL True) else Inr (S s))"
| "serialize P (JBuf b) = Inr (B (toBase64 P b))"
| "serialize P (JBool b) = Inr (BOOL b)"
| "serialize P (JNum n) = Inr (N (String_of P n))"
| "serialize P (JArr vs) =
     (case serialize_list P vs of Inl e \<Rightarrow> Inl e | Inr as \<Rightarrow> Inr (L as))"
| "serialize P (JObj kvs) =
     (case serialize_reduce P kvs [] of Inl e \<Rightarrow> Inl e | Inr acc \<Rightarrow> Inr (M acc))"
| "serialize P (JOther t) = Inl (Error (''Cannot serialize '' @ t))"
| "serialize_list P [] = Inr []"
| "serialize_list P (v # vs) =
     (case serialize P v of
        Inl e \<Rightarrow> Inl e
      | Inr a \<Rightarrow> (case serialize_list P vs of Inl e \<Rightarrow> Inl e | Inr as \<Rightarrow> Inr (a # as)))"
| "serialize_reduce P [] acc = Inr acc"
| "serialize_reduce P ((key, v) # kvs) acc =
     (case serialize P v of
        Inl e \<Rightarrow> Inl e
      | Inr a \<Rightarrow> serialize_reduce P kvs (AList.update key a acc))"

text \<open>\<^verbatim>\<open>parse\<close> (lines 25 to 45), with \<^verbatim>\<open>value.map(parse)\<close> and its \<^verbatim>\<open>reduce\<close>.\<close>

fun parse :: "'n platform \<Rightarrow> attr \<Rightarrow> 'e error + 'n jsval"
  and parse_list :: "'n platform \<Rightarrow> attr list \<Rightarrow> 'e error + 'n jsval list"
  and parse_reduce ::
    "'n platform \<Rightarrow> item \<Rightarrow> (string \<times> 'n jsval) list \<Rightarrow> 'e error + (string \<times> 'n jsval) list"
where
  "parse P (NULL b) = Inr JNull"
| "parse P (S s) = Inr (JStr s)"
| "parse P (B s) = Inr (JBuf (fromBase64 P s))"
| "parse P (BOOL b) = Inr (JBool b)"
| "parse P (N s) = Inr (JNum (parseFloat P s))"
| "parse P (L as) =
     (case parse_list P as of Inl e \<Rightarrow> Inl e | Inr vs \<Rightarrow> Inr (JArr vs))"
| "parse P (M kvs) =
     (case parse_reduce P kvs [] of Inl e \<Rightarrow> Inl e | Inr acc \<Rightarrow> Inr (JObj acc))"
| "parse P (Unknown t) = Inl (Error (''Cannot parse '' @ t @ ''.''))"
| "parse_list P [] = Inr []"
| "parse_list P (a # as) =
     (case parse P a of
        Inl e \<Rightarrow> Inl e
      | Inr v \<Rightarrow> (case parse_list P as of Inl e \<Rightarrow> Inl e | Inr vs \<Rightarrow> Inr (v # vs)))"
| "parse_reduce P [] acc = Inr acc"
| "parse_reduce P ((key, a) # kvs) acc =
     (case parse P a of
        Inl e \<Rightarrow> Inl e
      | Inr v \<Rightarrow> parse_reduce P kvs (AList.update key v acc))"






section \<open>The key and item mapper\<close>

record 'n schema =
  hash_name :: string
  hash_value :: "'n jsval"
  range_name :: string

record 'n db =
  table_name :: string
  db_schema :: "'n schema"

text \<open>
  \<^verbatim>\<open>item[name] = v\<close> in module code, which is strict: on \<^verbatim>\<open>null\<close>, \<^verbatim>\<open>undefined\<close> and on a
  primitive it throws a \<^verbatim>\<open>TypeError\<close>; on an object it sets the property; on an array, a
  buffer or another object it sets a property that is none of the elements (the name is
  taken not to be an index), which \<^verbatim>\<open>serialize\<close> does not read.
\<close>

fun set_prop :: "'n jsval \<Rightarrow> string \<Rightarrow> 'n jsval \<Rightarrow> 'e error + 'n jsval" where
  "set_prop (JObj kvs) name v = Inr (JObj (AList.update name v kvs))"
| "set_prop JUndefined name v = Inl (TypeError (''Cannot set property '' @ name @ '' of undefined''))"
| "set_prop JNull name v = Inl (TypeError (''Cannot set property '' @ name @ '' of null''))"
| "set_prop (JStr s) name v = Inl (TypeError (''Cannot create property '' @ name @ '' on string''))"
| "set_prop (JNum n) name v = Inl (TypeError (''Cannot create property '' @ name @ '' on number''))"
| "set_prop (JBool b) name v = Inl (TypeError (''Cannot create property '' @ name @ '' on boolean''))"
| "set_prop item name v = Inr item"

text \<open>\<^verbatim>\<open>object[name]\<close> on an object: \<^verbatim>\<open>undefined\<close> when there is no such property.\<close>

definition get_prop :: "(string \<times> 'n jsval) list \<Rightarrow> string \<Rightarrow> 'n jsval" where
  "get_prop kvs name = (case map_of kvs name of None \<Rightarrow> JUndefined | Some v \<Rightarrow> v)"

text \<open>\<^verbatim>\<open>serialize(item).M\<close>: \<^verbatim>\<open>undefined\<close> (\<open>None\<close>) when the tag is not \<^verbatim>\<open>M\<close>.\<close>

fun get_M :: "attr \<Rightarrow> item option" where
  "get_M (M kvs) = Some kvs"
| "get_M a = None"

text \<open>
  \<^verbatim>\<open>_toItem({key, value})\<close> (lines 157 to 164). The value is the JSON text of the record,
  \<open>None\<close> when the caller passes none; \<^verbatim>\<open>value ? JSON.parse(value) : {}\<close> takes the empty
  text as absent.
\<close>

definition toItem ::
  "'n platform \<Rightarrow> 'n schema \<Rightarrow> 'n jsval \<Rightarrow> string option \<Rightarrow> 'e error + item option" where
  "toItem P sch key val =
     (case (case val of
              None \<Rightarrow> Inr (JObj [])
            | Some s \<Rightarrow>
                if s = [] then Inr (JObj [])
                else (case JSON_parse P s of None \<Rightarrow> Inl (SyntaxError s) | Some v \<Rightarrow> Inr v)) of
        Inl e \<Rightarrow> Inl e
      | Inr item \<Rightarrow>
          (case set_prop item (hash_name sch) (hash_value sch) of
             Inl e \<Rightarrow> Inl e
           | Inr item1 \<Rightarrow>
               (case set_prop item1 (range_name sch) key of
                  Inl e \<Rightarrow> Inl e
                | Inr item2 \<Rightarrow>
                    (case serialize P item2 of Inl e \<Rightarrow> Inl e | Inr a \<Rightarrow> Inr (get_M a)))))"

record 'n kv =
  kv_key :: "'n jsval"
  kv_value :: "'n jsval"

text \<open>
  \<^verbatim>\<open>_toKV(item)\<close> (lines 166 to 173): the key is read from the range attribute, and
  \<^verbatim>\<open>delete value[this._schema.hash.name]\<close> is the only deletion. \<^verbatim>\<open>parse({M: item})\<close>
  returns an object or throws, so the last case is never taken.
\<close>

definition toKV :: "'n platform \<Rightarrow> 'n schema \<Rightarrow> item \<Rightarrow> 'e error + 'n kv" where
  "toKV P sch item =
     (case parse P (M item) of
        Inl e \<Rightarrow> Inl e
      | Inr v \<Rightarrow>
          (case v of
             JObj kvs \<Rightarrow>
               Inr \<lparr>kv_key = get_prop kvs (range_name sch),
                    kv_value = JObj (AList.delete (hash_name sch) kvs)\<rparr>
           | _ \<Rightarrow> Inl (TypeError ''not an object'')))"

section \<open>The range query planner\<close>

text \<open>
  The iteration options. A bound is \<open>None\<close> when the property is not in the object
  (\<^verbatim>\<open>"gt" in options\<close> is false). \<^verbatim>\<open>limit\<close> is a number, \<open>-1\<close> for no limit, and
  \<^verbatim>\<open>reverse\<close> a boolean, as the caller of \<^verbatim>\<open>_iterator\<close> sets them.
\<close>

record 'n options =
  gt :: "'n jsval option"
  gte :: "'n jsval option"
  lt :: "'n jsval option"
  lte :: "'n jsval option"
  limit :: int
  reverse :: bool

record 'n bound =
  bound_key :: "'n jsval"
  inclusive :: bool

datatype comparison = EQ | BETWEEN | GE | GT | LE | LT

record condition =
  ComparisonOperator :: comparison
  AttributeValueList :: "attr list"

record 't params =
  TableName :: string
  KeyConditions :: "string \<rightharpoonup> condition"
  Limit :: "int option"
  ScanIndexForward :: "bool option"
  ExclusiveStartKey :: "'t option"

text \<open>
  A cell of \<^verbatim>\<open>this._items\<close>: a record, the \<^verbatim>\<open>null\<close> pushed after the last page, or
  \<^verbatim>\<open>undefined\<close> (a deleted cell, or an index past the end).
\<close>

datatype 'n slot = Entry "'n kv" | Sentinel | Hole

record ('n, 't) iterator =
  it_limit :: "int option"
  it_reverse :: bool
  it_lowerBound :: "'n bound option"
  it_upperBound :: "'n bound option"
  it_params :: "'t params"
  it_items :: "'n slot list"
  it_cursor :: nat

text \<open>The truth value of a value, and \<^verbatim>\<open>a || b\<close>.\<close>

fun truthy :: "'n platform \<Rightarrow> 'n jsval \<Rightarrow> bool" where
  "truthy P JUndefined = False"
| "truthy P JNull = False"
| "truthy P (JStr s) = (s \<noteq> [])"
| "truthy P (JBool b) = b"
| "truthy P (JNum n) = num_truthy P n"
| "truthy P v = True"

definition js_or :: "'n platform \<Rightarrow> 'n jsval \<Rightarrow> 'n jsval \<Rightarrow> 'n jsval" where
  "js_or P a b = (if truthy P a then a else b)"

text \<open>\<^verbatim>\<open>options.gt\<close>: \<^verbatim>\<open>undefined\<close> when the property is not there.\<close>

definition own_prop :: "'n jsval option \<Rightarrow> 'n jsval" where
  "own_prop p = (case p of None \<Rightarrow> JUndefined | Some v \<Rightarrow> v)"

text \<open>Lines 57 to 62 and 64 to 69 of the constructor.\<close>

definition lowerBound :: "'n platform \<Rightarrow> 'n options \<Rightarrow> 'n bound option" where
  "lowerBound P opts =
     (if gt opts \<noteq> None \<or> gte opts \<noteq> None
      then Some \<lparr>bound_key = js_or P (own_prop (gt opts)) (own_prop (gte opts)),
                 inclusive = (gte opts \<noteq> None)\<rparr>
      else None)"

definition upperBound :: "'n platform \<Rightarrow> 'n options \<Rightarrow> 'n bound option" where
  "upperBound P opts =
     (if lt opts \<noteq> None \<or> lte opts \<noteq> None
      then Some \<lparr>bound_key = js_or P (own_prop (lt opts)) (own_prop (lte opts)),
                 inclusive = (lte opts \<noteq> None)\<rparr>
      else None)"

text \<open>
  Lines 84 to 106: the condition on the range attribute, \<open>None\<close> when no branch of
  the \<^verbatim>\<open>if\<close> chain is taken.
\<close>

definition range_condition ::
  "'n platform \<Rightarrow> 'n bound option \<Rightarrow> 'n bound option \<Rightarrow> 'e error + condition option" where
  "range_condition P lower upper =
     (case lower of
        Some lo \<Rightarrow>
          (case upper of
             Some up \<Rightarrow>
               (case serialize P (bound_key lo) of
                  Inl e \<Rightarrow> Inl e
                | Inr a \<Rightarrow>
                    (case serialize P (bound_key up) of
                       Inl e \<Rightarrow> Inl e
                     | Inr b \<Rightarrow>
                         Inr (Some \<lparr>ComparisonOperator = BETWEEN, AttributeValueList = [a, b]\<rparr>)))
           | None \<Rightarrow>
               (case serialize P (bound_key lo) of
                  Inl e \<Rightarrow> Inl e
                | Inr a \<Rightarrow>
                    Inr (Some \<lparr>ComparisonOperator = (if inclusive lo then GE else GT),
                               AttributeValueList = [a]\<rparr>)))
      | None \<Rightarrow>
          (case upper of
             Some up \<Rightarrow>
               (case serialize P (bound_key up) of
                  Inl e \<Rightarrow> Inl e
                | Inr b \<Rightarrow>
                    Inr (Some \<lparr>ComparisonOperator = (if inclusive up then LE else LT),
                               AttributeValueList = [b]\<rparr>))
           | None \<Rightarrow> Inr None))"

text \<open>
  The constructor of \<^verbatim>\<open>DynamoIterator\<close> (lines 48 to 110). \<^verbatim>\<open>KeyConditions\<close> is an
  object indexed by attribute name: the assignment for the range attribute comes after
  the one for the hash attribute.
\<close>

definition DynamoIterator ::
  "'n platform \<Rightarrow> 'n db \<Rightarrow> 'n options \<Rightarrow> 'e error + ('n, 't) iterator" where
  "DynamoIterator P d opts =
     (let lim = (if limit opts \<noteq> - 1 then Some (limit opts) else None);
          rev = reverse opts;
          lower = lowerBound P opts;
          upper = upperBound P opts;
          sch = db_schema d
      in case serialize P (hash_value sch) of
           Inl e \<Rightarrow> Inl e
         | Inr hv \<Rightarrow>
             (case range_condition P lower upper of
                Inl e \<Rightarrow> Inl e
              | Inr rc \<Rightarrow>
                  (let kc0 = [hash_name sch \<mapsto>
                                \<lparr>ComparisonOperator = EQ, AttributeValueList = [hv]\<rparr>];
                       kc = (case rc of None \<Rightarrow> kc0 | Some c \<Rightarrow> kc0(range_name sch \<mapsto> c))
                   in Inr \<lparr>it_limit = lim, it_reverse = rev,
                           it_lowerBound = lower, it_upperBound = upper,
                           it_params = \<lparr>TableName = table_name d, KeyConditions = kc,
                                        Limit = lim,
                                        ScanIndexForward = (if rev then Some False else None),
                                        ExclusiveStartKey = None\<rparr>,
                           it_items = [], it_cursor = 0\<rparr>)))"

section \<open>The paginating iterator\<close>

text \<open>
  The provider's \<^verbatim>\<open>query\<close>: from its state \<open>'w\<close> and the parameters, either an error
  object or a page, and its next state. A token \<open>'t\<close> is what it returns as
  \<^verbatim>\<open>LastEvaluatedKey\<close> and reads as \<^verbatim>\<open>ExclusiveStartKey\<close>.
\<close>

record 't response =
  Items :: "item list"
  LastEvaluatedKey :: "'t option"

type_synonym ('t, 'e, 'w) query = "'w \<Rightarrow> 't params \<Rightarrow> ('e + 't response) \<times> 'w"

definition slot_at :: "'n slot list \<Rightarrow> nat \<Rightarrow> 'n slot" where
  "slot_at items i = (if i < length items then items ! i else Hole)"

text \<open>
  Line 133, \<^verbatim>\<open>for (let item of Items) this._items.push(this.db._toKV(item))\<close>: the
  cells after the pushes, and the error of the first \<^verbatim>\<open>_toKV\<close> that throws.
\<close>

fun push_items ::
  "'n platform \<Rightarrow> 'n schema \<Rightarrow> item list \<Rightarrow> 'n slot list \<Rightarrow> 'n slot list \<times> 'e error option" where
  "push_items P sch [] items = (items, None)"
| "push_items P sch (i # is) items =
     (case toKV P sch i of
        Inl e \<Rightarrow> (items, Some e)
      | Inr r \<Rightarrow> push_items P sch is (items @ [Entry r]))"

text \<open>What a call of \<^verbatim>\<open>next\<close> hands to its callback when there is no error.\<close>

datatype 'n yield = Yield "'n jsval" string | End_of_sequence

text \<open>
  \<^verbatim>\<open>_next(cb)\<close> (lines 112 to 140). The result is the argument of the callback, the
  iterator and the provider after the call; \<open>None\<close> when the call never reaches its
  callback (the provider can return empty pages with a token for ever).
\<close>

partial_function (option) DynamoIterator_next ::
  "'n platform \<Rightarrow> 'n db \<Rightarrow> ('t, 'e, 'w) query \<Rightarrow> ('n, 't) iterator \<Rightarrow> 'w \<Rightarrow>
     (('e error + 'n yield) \<times> ('n, 't) iterator \<times> 'w) option" where
  "DynamoIterator_next P d query it w =
     (case slot_at (it_items it) (it_cursor it) of
        Entry r \<Rightarrow>
          Some (Inr (Yield (kv_key r) (JSON_stringify P (kv_value r))),
                it\<lparr>it_items := (it_items it)[it_cursor it := Hole],
                   it_cursor := it_cursor it + 1\<rparr>, w)
      | Sentinel \<Rightarrow> Some (Inr End_of_sequence, it, w)
      | Hole \<Rightarrow>
          if Some (int (it_cursor it)) = it_limit it then Some (Inr End_of_sequence, it, w)
          else (case query w (it_params it) of
                  (Inl err, w') \<Rightarrow> Some (Inl (ProviderError err), it, w')
                | (Inr data, w') \<Rightarrow>
                    (case push_items P (db_schema d) (Items data) (it_items it) of
                       (items, Some e) \<Rightarrow> Some (Inl e, it\<lparr>it_items := items\<rparr>, w')
                     | (items, None) \<Rightarrow>
                         DynamoIterator_next P d query
                           (it\<lparr>it_items := (case LastEvaluatedKey data of
                                               None \<Rightarrow> items @ [Sentinel]
                                             | Some t \<Rightarrow> items),
                               it_params := (it_params it)
                                 \<lparr>ExclusiveStartKey := LastEvaluatedKey data\<rparr>\<rparr>) w')))"

declare DynamoIterator_next.simps [code]

text \<open>
  What \<^verbatim>\<open>next\<close> hands over for an item of the provider: the record that line 133
  pushes, passed to the callback as in line 117.
\<close>

definition yield_of :: "'n platform \<Rightarrow> 'n schema \<Rightarrow> item \<Rightarrow> 'e error + 'n yield" where
  "yield_of P sch i =
     (case toKV P sch i of
        Inl e \<Rightarrow> Inl e
      | Inr r \<Rightarrow> Inr (Yield (kv_key r) (JSON_stringify P (kv_value r))))"

text \<open>A caller that calls \<^verbatim>\<open>next\<close> \<open>n\<close> times, each call after the callback of the last.\<close>

fun next_times ::
  "nat \<Rightarrow> 'n platform \<Rightarrow> 'n db \<Rightarrow> ('t, 'e, 'w) query \<Rightarrow> ('n, 't) iterator \<Rightarrow> 'w \<Rightarrow>
     (('e error + 'n yield) list \<times> ('n, 't) iterator \<times> 'w) option" where
  "next_times 0 P d query it w = Some ([], it, w)"
| "next_times (Suc n) P d query it w =
     (case DynamoIterator_next P d query it w of
        None \<Rightarrow> None
      | Some (r, it', w') \<Rightarrow>
          (case next_times n P d query it' w' of
             None \<Rightarrow> None
           | Some (rs, it'', w'') \<Rightarrow> Some (r # rs, it'', w'')))"

text \<open>
  The provider of the pagination claims: a partition \<open>its\<close> served in pages of \<open>P\<close>
  items, each page but the last with a token (the offset of the next page). Its state
  counts the calls.
\<close>

definition paged_query :: "item list \<Rightarrow> nat \<Rightarrow> (nat, 'e, nat) query" where
  "paged_query its page w ps =
     (let off = (case ExclusiveStartKey ps of None \<Rightarrow> 0 | Some t \<Rightarrow> t)
      in (Inr \<lparr>Items = take page (drop off its),
               LastEvaluatedKey = (if off + page < length its then Some (off + page) else None)\<rparr>,
          Suc w))"

section \<open>Reading one key\<close>

text \<open>
  The provider's \<^verbatim>\<open>getItem\<close>, from the table name and the key: an error object, or
  \<^verbatim>\<open>data.Item\<close> (\<open>None\<close> when the response has no item).
\<close>

type_synonym ('e, 'w) getItem = "'w \<Rightarrow> string \<Rightarrow> item option \<Rightarrow> ('e + item option) \<times> 'w"

record get_options =
  valueEncoding :: "string option"
  asBuffer :: "bool option"

text \<open>
  \<^verbatim>\<open>_get(key, options, cb)\<close> (lines 190 to 209): the argument of the callback and the
  provider after the call. \<^verbatim>\<open>this._toItem({key})\<close> runs before the provider is called.
\<close>

definition DynamoDOWN_get ::
  "'n platform \<Rightarrow> 'n db \<Rightarrow> ('e, 'w) getItem \<Rightarrow> 'n jsval \<Rightarrow> get_options \<Rightarrow> 'w \<Rightarrow>
     ('e error + 'n jsval) \<times> 'w" where
  "DynamoDOWN_get P d getItem key opts w =
     (case toItem P (db_schema d) key None of
        Inl e \<Rightarrow> (Inl e, w)
      | Inr Key \<Rightarrow>
          (case getItem w (table_name d) Key of
             (Inl err, w') \<Rightarrow> (Inl (ProviderError err), w')
           | (Inr None, w') \<Rightarrow> (Inl (Error ''NotFound''), w')
           | (Inr (Some found), w') \<Rightarrow>
               (case toKV P (db_schema d) found of
                  Inl e \<Rightarrow> (Inl e, w')
                | Inr r \<Rightarrow>
                    (let isValue = (valueEncoding opts \<noteq> Some ''json'');
                         v = (if isValue
                              then (case kv_value r of
                                      JObj kvs \<Rightarrow> get_prop kvs ''value''
                                    | _ \<Rightarrow> JUndefined)
                              else JStr (JSON_stringify P (kv_value r)))
                     in if asBuffer opts \<noteq> Some False
                        then (case new_Buffer P v of
                                None \<Rightarrow> (Inl (TypeError ''new Buffer''), w')
                              | Some b \<Rightarrow> (Inr b, w'))
                        else (Inr v, w')))))"

section \<open>The batch writer\<close>

text \<open>
  An entry of the array given to \<^verbatim>\<open>_batch\<close>, and an entry of a provider batch. The
  key or item of a request is what \<^verbatim>\<open>_toItem\<close> returned.
\<close>

record 'n operation =
  op_type :: "'n jsval"
  op_key :: "'n jsval"
  op_value :: "string option"

datatype request = DeleteRequest "item option" | PutRequest "item option"

text \<open>Lines 236 to 240: the function mapped over the array, and the mapping.\<close>

definition to_request :: "'n platform \<Rightarrow> 'n schema \<Rightarrow> 'n operation \<Rightarrow> 'e error + request" where
  "to_request P sch x =
     (if op_type x = JStr ''del''
      then (case toItem P sch (op_key x) None of
              Inl e \<Rightarrow> Inl e
            | Inr k \<Rightarrow> Inr (DeleteRequest k))
      else (case toItem P sch (op_key x) (op_value x) of
              Inl e \<Rightarrow> Inl e
            | Inr i \<Rightarrow> Inr (PutRequest i)))"



text \<open>
  Lines 247 to 253: the requests of a round and what stays in \<^verbatim>\<open>ops\<close>. \<open>data\<close> is
  \<open>None\<close> in the first round. \<^verbatim>\<open>ops.splice(0, n)\<close> removes nothing when \<open>n\<close> is
  negative, as \<^const>\<open>take\<close> and \<^const>\<open>drop\<close> do with the truncated difference.
\<close>

definition unprocessed :: "(string \<rightharpoonup> request list) option \<Rightarrow> string \<Rightarrow> request list" where
  "unprocessed data tn =
     (case data of
        None \<Rightarrow> []
      | Some u \<Rightarrow> (case u tn of None \<Rightarrow> [] | Some rs \<Rightarrow> rs))"

definition round_reqs ::
  "(string \<rightharpoonup> request list) option \<Rightarrow> string \<Rightarrow> request list \<Rightarrow> request list \<times> request list" where
  "round_reqs data tn ops =
     (let reqs = unprocessed data tn
      in (reqs @ take (25 - length reqs) ops, drop (25 - length reqs) ops))"





section \<open>An instance of the runtime\<close>

text \<open>
  The examples below need a runtime to compute with. In this one the numbers are the
  integers; it is used only at the inputs of the examples.
\<close>

text \<open>Integers in decimal: \<^verbatim>\<open>String(n)\<close> and \<^verbatim>\<open>parseFloat(text)\<close> on them.\<close>

fun digits :: "nat \<Rightarrow> string" where
  "digits n = (if n < 10 then [''0123456789'' ! n] else digits (n div 10) @ [''0123456789'' ! (n mod 10)])"

definition demo_String :: "int \<Rightarrow> string" where
  "demo_String i = (if i < 0 then CHR ''-'' # digits (nat (- i)) else digits (nat i))"

definition index_of :: "string \<Rightarrow> char \<Rightarrow> nat" where
  "index_of cs c = length (takeWhile (\<lambda>x. x \<noteq> c) cs)"

fun read_digits :: "string \<Rightarrow> nat \<Rightarrow> nat" where
  "read_digits [] acc = acc"
| "read_digits (c # cs) acc =
     (if c \<in> set ''0123456789'' then read_digits cs (acc * 10 + index_of ''0123456789'' c) else acc)"

definition demo_parseFloat :: "string \<Rightarrow> int" where
  "demo_parseFloat s =
     (case s of
        [] \<Rightarrow> 0
      | c # cs \<Rightarrow> if c = CHR ''-'' then - int (read_digits cs 0) else int (read_digits s 0))"

text \<open>Base64 with the standard alphabet and \<^verbatim>\<open>=\<close> padding, on the values of the bytes.\<close>

definition base64_chars :: string where
  "base64_chars = ''ABCDEFGHIJKLMNOPQRSTUVWXYZabcdefghijklmnopqrstuvwxyz0123456789+/''"

fun base64_encode :: "nat list \<Rightarrow> string" where
  "base64_encode (a # b # c # rest) =
     [base64_chars ! (a div 4), base64_chars ! ((a mod 4) * 16 + b div 16),
      base64_chars ! ((b mod 16) * 4 + c div 64), base64_chars ! (c mod 64)] @ base64_encode rest"
| "base64_encode [a, b] =
     [base64_chars ! (a div 4), base64_chars ! ((a mod 4) * 16 + b div 16),
      base64_chars ! ((b mod 16) * 4), CHR ''='']"
| "base64_encode [a] =
     [base64_chars ! (a div 4), base64_chars ! ((a mod 4) * 16), CHR ''='', CHR ''='']"
| "base64_encode [] = []"

fun base64_decode :: "string \<Rightarrow> nat list" where
  "base64_decode (p # q # r # s # rest) =
     (let i = index_of base64_chars p; j = index_of base64_chars q;
          k = index_of base64_chars r; l = index_of base64_chars s
      in if r = CHR ''='' then [i * 4 + j div 16]
         else if s = CHR ''='' then [i * 4 + j div 16, (j mod 16) * 16 + k div 4]
         else [i * 4 + j div 16, (j mod 16) * 16 + k div 4, (k mod 4) * 64 + l] @ base64_decode rest)"
| "base64_decode cs = []"

text \<open>\<^verbatim>\<open>JSON.stringify\<close> for texts that need no escape.\<close>

fun demo_stringify :: "int jsval \<Rightarrow> string"
  and demo_stringify_list :: "int jsval list \<Rightarrow> string"
  and demo_stringify_props :: "(string \<times> int jsval) list \<Rightarrow> string"
where
  "demo_stringify (JStr s) = CHR 0x22 # s @ [CHR 0x22]"
| "demo_stringify (JNum n) = demo_String n"
| "demo_stringify (JBool b) = (if b then ''true'' else ''false'')"
| "demo_stringify (JArr vs) = ''['' @ demo_stringify_list vs @ '']''"
| "demo_stringify (JObj kvs) = ''{'' @ demo_stringify_props kvs @ ''}''"
| "demo_stringify v = ''null''"
| "demo_stringify_list [] = []"
| "demo_stringify_list [v] = demo_stringify v"
| "demo_stringify_list (v # vs) = demo_stringify v @ '','' @ demo_stringify_list vs"
| "demo_stringify_props [] = []"
| "demo_stringify_props [(k, v)] = CHR 0x22 # k @ [CHR 0x22] @ '':'' @ demo_stringify v"
| "demo_stringify_props ((k, v) # kvs) =
     CHR 0x22 # k @ [CHR 0x22] @ '':'' @ demo_stringify v @ '','' @ demo_stringify_props kvs"

text \<open>
  The instance. Its \<^verbatim>\<open>JSON.parse\<close> knows the two texts \<^verbatim>\<open>{}\<close> and \<^verbatim>\<open>{"a":"x"}\<close> and
  throws on any other.
\<close>

definition example_text :: string where
  "example_text =
     [CHR ''{'', CHR 0x22, CHR ''a'', CHR 0x22, CHR '':'', CHR 0x22, CHR ''x'', CHR 0x22, CHR ''}'']"

definition demo :: "int platform" where
  "demo = \<lparr>String_of = demo_String, parseFloat = demo_parseFloat,
     toBase64 = (\<lambda>b. base64_encode (map unat b)),
     fromBase64 = (\<lambda>s. map of_nat (base64_decode s)),
     num_truthy = (\<lambda>n. n \<noteq> 0),
     JSON_parse = map_of [(''{}'', JObj []), (example_text, JObj [(''a'', JStr ''x'')])],
     JSON_stringify = demo_stringify,
     new_Buffer = (\<lambda>v. case v of JStr s \<Rightarrow> Some (JBuf (map (\<lambda>c. of_nat (of_char c)) s)) | JBuf b \<Rightarrow> Some (JBuf b) | _ \<Rightarrow> None)\<rparr>"


text \<open>
  A partition for the examples: \<open>n\<close> items of the table with hash attribute \<^verbatim>\<open>h\<close> and
  range attribute \<^verbatim>\<open>r\<close>, with the keys \<^verbatim>\<open>"0"\<close>, \<^verbatim>\<open>"1"\<close>, ... and no other attribute.
\<close>

definition example_items :: "nat \<Rightarrow> item list" where
  "example_items n = map (\<lambda>i. [(''h'', S ''H''), (''r'', S (digits i))]) [0..<n]"

section \<open>Properties of the codec\<close>

lemma update_fresh: "k \<notin> fst ` set al \<Longrightarrow> AList.update k v al = al @ [(k, v)]"
  by (induction al) auto










section \<open>Properties of the mapper\<close>




text \<open>The key that \<^verbatim>\<open>_toItem({key})\<close> builds when no value is given.\<close>

lemma toItem_key_only:
  fixes P :: "'n platform"
  assumes "serialize P (hash_value sch) = (Inr hv :: 'e error + attr)"
    and "serialize P key = (Inr k :: 'e error + attr)"
    and "hash_name sch \<noteq> range_name sch"
  shows "toItem P sch key None =
    (Inr (Some [(hash_name sch, hv), (range_name sch, k)]) :: 'e error + item option)"
  using assms by (simp add: toItem_def)






section \<open>Properties of the range query planner\<close>








text \<open>
  C4, as amended. When the options have both \<^verbatim>\<open>gt\<close> and \<^verbatim>\<open>gte\<close>, the lower bound is
  inclusive and its key is the key of \<^verbatim>\<open>gt\<close> if that is truthy, the key of \<^verbatim>\<open>gte\<close>
  otherwise; likewise for \<^verbatim>\<open>lt\<close> and \<^verbatim>\<open>lte\<close> and the upper bound.
\<close>

theorem bounds_of_both_variants:
  "(gt opts = Some a \<and> gte opts = Some b \<longrightarrow>
      lowerBound P opts =
        Some \<lparr>bound_key = (if truthy P a then a else b), inclusive = True\<rparr>) \<and>
   (lt opts = Some c \<and> lte opts = Some e \<longrightarrow>
      upperBound P opts =
        Some \<lparr>bound_key = (if truthy P c then c else e), inclusive = True\<rparr>)"
  by (simp add: lowerBound_def upperBound_def js_or_def own_prop_def)

theorem bounds_of_both_variants_witness:
  "lowerBound demo
     \<lparr>gt = Some (JStr []), gte = Some (JStr ''b''), lt = Some (JStr ''y''),
      lte = Some (JStr ''z''), limit = - 1, reverse = False\<rparr> =
     Some \<lparr>bound_key = JStr ''b'', inclusive = True\<rparr> \<and>
   upperBound demo
     \<lparr>gt = Some (JStr []), gte = Some (JStr ''b''), lt = Some (JStr ''y''),
      lte = Some (JStr ''z''), limit = - 1, reverse = False\<rparr> =
     Some \<lparr>bound_key = JStr ''y'', inclusive = True\<rparr>"
  using bounds_of_both_variants
    [of "\<lparr>gt = Some (JStr []), gte = Some (JStr ''b''), lt = Some (JStr ''y''),
          lte = Some (JStr ''z''), limit = - 1, reverse = False\<rparr>"
        "JStr []" "JStr ''b''" demo "JStr ''y''" "JStr ''z''"]
  by simp

text \<open>
  C4, as stated, fails: with \<^verbatim>\<open>{gt: "a", gte: "b"}\<close> the lower bound has the key of
  \<^verbatim>\<open>gt\<close>, not the key of \<^verbatim>\<open>gte\<close>, and the condition on the range attribute is \<^verbatim>\<open>GE\<close>
  with that key.
\<close>

theorem bounds_of_both_variants_counterexample:
  "lowerBound demo
     \<lparr>gt = Some (JStr ''a''), gte = Some (JStr ''b''), lt = None, lte = None,
      limit = - 1, reverse = False\<rparr> =
     Some \<lparr>bound_key = JStr ''a'', inclusive = True\<rparr> \<and>
   JStr ''a'' \<noteq> (JStr ''b'' :: int jsval) \<and>
   map_sum id (\<lambda>it. KeyConditions (it_params it) ''r'')
     (DynamoIterator demo
        \<lparr>table_name = ''t'',
         db_schema = \<lparr>hash_name = ''h'', hash_value = JStr ''H'', range_name = ''r''\<rparr>\<rparr>
        \<lparr>gt = Some (JStr ''a''), gte = Some (JStr ''b''), lt = None, lte = None,
         limit = - 1, reverse = False\<rparr> :: unit error + (int, nat) iterator) =
     Inr (Some \<lparr>ComparisonOperator = GE, AttributeValueList = [S ''a'']\<rparr>)"
  by (simp add: lowerBound_def upperBound_def js_or_def own_prop_def DynamoIterator_def
      range_condition_def Let_def)

section \<open>Properties of reading one key\<close>

text \<open>
  C8. Let the hash value and the key be encodable and the two key attributes have
  different names; the provider is then asked for the key made of these two attributes.
  If it answers without an item, \<^verbatim>\<open>_get\<close> calls back with the error \<^verbatim>\<open>NotFound\<close>; if it
  answers with an error object, \<^verbatim>\<open>_get\<close> calls back with that object.
\<close>

theorem get_failures:
  fixes P :: "'n platform" and getItem :: "('e, 'w) getItem"
  assumes "serialize P (hash_value (db_schema d)) = (Inr hv :: 'e error + attr)"
    and "serialize P key = (Inr k :: 'e error + attr)"
    and "hash_name (db_schema d) \<noteq> range_name (db_schema d)"
  shows
    "(getItem w (table_name d)
        (Some [(hash_name (db_schema d), hv), (range_name (db_schema d), k)]) = (Inr None, w')
      \<longrightarrow> DynamoDOWN_get P d getItem key opts w = (Inl (Error ''NotFound''), w')) \<and>
     (getItem w (table_name d)
        (Some [(hash_name (db_schema d), hv), (range_name (db_schema d), k)]) = (Inl err, w')
      \<longrightarrow> DynamoDOWN_get P d getItem key opts w = (Inl (ProviderError err), w'))"
  using toItem_key_only [OF assms] by (simp add: DynamoDOWN_get_def)

theorem get_failures_witness:
  "DynamoDOWN_get demo
     \<lparr>table_name = ''t'',
      db_schema = \<lparr>hash_name = ''h'', hash_value = JStr ''H'', range_name = ''r''\<rparr>\<rparr>
     (\<lambda>w tn key. (Inr None, Suc w)) (JStr ''k'')
     \<lparr>valueEncoding = None, asBuffer = None\<rparr> (0 :: nat) =
     (Inl (Error ''NotFound'' :: string error), 1) \<and>
   DynamoDOWN_get demo
     \<lparr>table_name = ''t'',
      db_schema = \<lparr>hash_name = ''h'', hash_value = JStr ''H'', range_name = ''r''\<rparr>\<rparr>
     (\<lambda>w tn key. (Inl ''ResourceNotFoundException'', Suc w)) (JStr ''k'')
     \<lparr>valueEncoding = None, asBuffer = None\<rparr> (0 :: nat) =
     (Inl (ProviderError ''ResourceNotFoundException''), 1)"
proof -
  let ?d = "\<lparr>table_name = ''t'',
    db_schema = \<lparr>hash_name = ''h'', hash_value = JStr ''H'', range_name = ''r''\<rparr>\<rparr> :: int db"
  have 1: "serialize demo (hash_value (db_schema ?d)) = (Inr (S ''H'') :: string error + attr)"
    by simp
  have 2: "serialize demo (JStr ''k'') = (Inr (S ''k'') :: string error + attr)"
    by simp
  have 3: "hash_name (db_schema ?d) \<noteq> range_name (db_schema ?d)"
    by simp
  from get_failures [OF 1 2 3, where getItem = "\<lambda>w tn key. (Inr None, Suc w)" and w = 0 and w' = 1]
    get_failures [OF 1 2 3, where getItem = "\<lambda>w tn key. (Inl ''ResourceNotFoundException'', Suc w)"
      and w = 0 and w' = 1 and err = "''ResourceNotFoundException''"]
  show ?thesis by simp
qed

section \<open>Properties of the batch writer\<close>

text \<open>
  C10. Let the hash value and the key of an entry be encodable and the two key
  attributes have different names. An entry of type \<^verbatim>\<open>del\<close> becomes a delete request
  whose key has the two key attributes and nothing else. An entry of any other type
  becomes a put request with the item that \<^verbatim>\<open>_toItem\<close> builds from its key and value
  (or the mapping throws what \<^verbatim>\<open>_toItem\<close> throws); when the value text parses to an
  object whose keys are not the key attributes, that item is the encoding of the whole
  object with the two key attributes added.
\<close>

theorem request_of_entry:
  fixes P :: "'n platform"
  assumes "serialize P (hash_value sch) = (Inr hv :: 'e error + attr)"
    and "serialize P (op_key x) = (Inr k :: 'e error + attr)"
    and "hash_name sch \<noteq> range_name sch"
  shows
    "(op_type x = JStr ''del'' \<longrightarrow>
        to_request P sch x =
          (Inr (DeleteRequest (Some [(hash_name sch, hv), (range_name sch, k)]))
             :: 'e error + request)) \<and>
     (op_type x \<noteq> JStr ''del'' \<longrightarrow>
        to_request P sch x =
          (map_sum id PutRequest (toItem P sch (op_key x) (op_value x)) :: 'e error + request)) \<and>
     (op_type x \<noteq> JStr ''del'' \<and> op_value x = Some text \<and> text \<noteq> [] \<and>
      JSON_parse P text = Some (JObj kvs) \<and>
      hash_name sch \<notin> fst ` set kvs \<and> range_name sch \<notin> fst ` set kvs \<longrightarrow>
        to_request P sch x =
          (map_sum id (\<lambda>a. PutRequest (get_M a))
             (serialize P (JObj (kvs @ [(hash_name sch, hash_value sch),
                                        (range_name sch, op_key x)])))
             :: 'e error + request))"
proof (intro conjI impI)
  assume "op_type x = JStr ''del''"
  then show "to_request P sch x =
      (Inr (DeleteRequest (Some [(hash_name sch, hv), (range_name sch, k)])) :: 'e error + request)"
    using toItem_key_only [OF assms] by (simp add: to_request_def)
next
  assume "op_type x \<noteq> JStr ''del''"
  then show "to_request P sch x =
      (map_sum id PutRequest (toItem P sch (op_key x) (op_value x)) :: 'e error + request)"
    by (simp add: to_request_def split: sum.splits)
next
  assume a: "op_type x \<noteq> JStr ''del'' \<and> op_value x = Some text \<and> text \<noteq> [] \<and>
      JSON_parse P text = Some (JObj kvs) \<and>
      hash_name sch \<notin> fst ` set kvs \<and> range_name sch \<notin> fst ` set kvs"
  then have upd: "AList.update (range_name sch) (op_key x)
      (AList.update (hash_name sch) (hash_value sch) kvs) =
      kvs @ [(hash_name sch, hash_value sch), (range_name sch, op_key x)]"
    using assms(3) by (simp add: update_fresh)
  have "toItem P sch (op_key x) (op_value x) =
      (map_sum id get_M
         (serialize P (JObj (kvs @ [(hash_name sch, hash_value sch),
                                    (range_name sch, op_key x)])))
         :: 'e error + item option)"
    using a upd by (simp add: toItem_def split: sum.splits)
  with a show "to_request P sch x =
      (map_sum id (\<lambda>a. PutRequest (get_M a))
         (serialize P (JObj (kvs @ [(hash_name sch, hash_value sch),
                                    (range_name sch, op_key x)])))
         :: 'e error + request)"
    by (simp add: to_request_def split: sum.splits)
qed

theorem request_of_entry_witness:
  "to_request demo \<lparr>hash_name = ''h'', hash_value = JStr ''H'', range_name = ''r''\<rparr>
     \<lparr>op_type = JStr ''del'', op_key = JStr ''k'', op_value = Some example_text\<rparr> =
     (Inr (DeleteRequest (Some [(''h'', S ''H''), (''r'', S ''k'')])) :: unit error + request) \<and>
   to_request demo \<lparr>hash_name = ''h'', hash_value = JStr ''H'', range_name = ''r''\<rparr>
     \<lparr>op_type = JStr ''merge'', op_key = JStr ''k'', op_value = Some example_text\<rparr> =
     (Inr (PutRequest (Some [(''a'', S ''x''), (''h'', S ''H''), (''r'', S ''k'')]))
        :: unit error + request)"
proof -
  let ?s = "\<lparr>hash_name = ''h'', hash_value = JStr ''H'', range_name = ''r''\<rparr> :: int schema"
  let ?del = "\<lparr>op_type = JStr ''del'', op_key = JStr ''k'', op_value = Some example_text\<rparr>
    :: int operation"
  let ?put = "\<lparr>op_type = JStr ''merge'', op_key = JStr ''k'', op_value = Some example_text\<rparr>
    :: int operation"
  have 1: "serialize demo (hash_value ?s) = (Inr (S ''H'') :: unit error + attr)" by simp
  have 2: "serialize demo (op_key ?del) = (Inr (S ''k'') :: unit error + attr)" by simp
  have 3: "serialize demo (op_key ?put) = (Inr (S ''k'') :: unit error + attr)" by simp
  have 4: "hash_name ?s \<noteq> range_name ?s" by simp
  have 5: "JSON_parse demo example_text = Some (JObj [(''a'', JStr ''x'')])"
    by (simp add: demo_def example_text_def)
  have 6: "example_text \<noteq> []" by (simp add: example_text_def)
  from request_of_entry [OF 1 2 4, of example_text "[]"]
  have d: "to_request demo ?s ?del =
      (Inr (DeleteRequest (Some [(''h'', S ''H''), (''r'', S ''k'')])) :: unit error + request)"
    by simp
  from request_of_entry [OF 1 3 4, of example_text "[(''a'', JStr ''x'')]",
      THEN conjunct2, THEN conjunct2] 5 6
  have "to_request demo ?s ?put =
      (Inr (PutRequest (Some [(''a'', S ''x''), (''h'', S ''H''), (''r'', S ''k'')]))
         :: unit error + request)"
    by simp
  with d show ?thesis by simp
qed

lemma round_reqs_eq:
  "round_reqs data tn ops =
     (unprocessed data tn @ take (25 - length (unprocessed data tn)) ops,
      drop (25 - length (unprocessed data tn)) ops)"
  by (simp add: round_reqs_def Let_def)

lemma round_reqs_empty:
  "fst (round_reqs data tn ops) = [] \<longleftrightarrow> ops = [] \<and> unprocessed data tn = []"
  by (auto simp: round_reqs_eq)






section \<open>Properties of the paginating iterator\<close>

lemma push_items_decoded:
  fixes P :: "'n platform"
  assumes "list_all2 (\<lambda>i r. toKV P sch i = (Inr r :: 'e error + 'n kv)) is rs"
  shows "push_items P sch is items = (items @ map Entry rs, (None :: 'e error option))"
  using assms by (induction arbitrary: items rule: list_all2_induct) simp_all

lemma yield_of_decoded:
  fixes P :: "'n platform"
  assumes "list_all2 (\<lambda>i r. toKV P sch i = (Inr r :: 'e error + 'n kv)) is rs"
  shows "map (yield_of P sch) is =
    (map (\<lambda>r. Inr (Yield (kv_key r) (JSON_stringify P (kv_value r)))) rs
       :: ('e error + 'n yield) list)"
  using assms by (induction rule: list_all2_induct) (simp_all add: yield_of_def)

lemma decoded_records:
  fixes P :: "'n platform"
  assumes "\<forall>i \<in> set is. \<exists>r. toKV P sch i = (Inr r :: 'e error + 'n kv)"
  shows "\<exists>rs. list_all2 (\<lambda>i r. toKV P sch i = (Inr r :: 'e error + 'n kv)) is rs"
  using assms
proof (induction "is")
  case Nil
  show ?case by simp
next
  case (Cons i "is")
  then obtain r rs where "toKV P sch i = (Inr r :: 'e error + 'n kv)"
    "list_all2 (\<lambda>i r. toKV P sch i = (Inr r :: 'e error + 'n kv)) is rs"
    by auto
  then have "list_all2 (\<lambda>i r. toKV P sch i = (Inr r :: 'e error + 'n kv)) (i # is) (r # rs)"
    by simp
  then show ?case by blast
qed

lemma slot_at_holes: "slot_at (replicate j Hole @ x # xs) j = x"
  by (simp add: slot_at_def nth_append)

lemma slot_at_end: "slot_at (replicate j Hole) j = Hole"
  by (simp add: slot_at_def)

lemma update_holes: "(replicate j Hole @ x # xs)[j := Hole] = replicate (Suc j) Hole @ xs"
  by (simp add: list_update_append replicate_append_same)

text \<open>A call of \<^verbatim>\<open>next\<close> on a buffered record, and on the \<^verbatim>\<open>null\<close> after the last page.\<close>

lemma next_on_entry:
  assumes "slot_at (it_items it) (it_cursor it) = Entry r"
  shows "DynamoIterator_next P d q it w =
    Some (Inr (Yield (kv_key r) (JSON_stringify P (kv_value r))),
          it\<lparr>it_items := (it_items it)[it_cursor it := Hole], it_cursor := it_cursor it + 1\<rparr>, w)"
  using assms by (subst DynamoIterator_next.simps) simp

lemma next_on_sentinel:
  assumes "slot_at (it_items it) (it_cursor it) = Sentinel"
  shows "DynamoIterator_next P d q it w = Some (Inr End_of_sequence, it, w)"
  using assms by (subst DynamoIterator_next.simps) simp

lemma next_times_on_sentinel:
  assumes "slot_at (it_items it) (it_cursor it) = Sentinel"
  shows "next_times m P d q it w = Some (replicate m (Inr End_of_sequence), it, w)"
  using assms by (induction m) (simp_all add: next_on_sentinel)

lemma next_times_add:
  "next_times (a + b) P d q it w =
     (case next_times a P d q it w of
        None \<Rightarrow> None
      | Some (xs, it1, w1) \<Rightarrow>
          (case next_times b P d q it1 w1 of
             None \<Rightarrow> None
           | Some (ys, it2, w2) \<Rightarrow> Some (xs @ ys, it2, w2)))"
  by (induction a arbitrary: it w) (auto split: option.splits)

text \<open>Reading the records that are already in the buffer makes no call.\<close>

lemma next_times_buffered:
  assumes "it_items it = replicate j Hole @ map Entry rs @ rest" and "it_cursor it = j"
  shows "\<exists>it'. next_times (length rs) P d q it w =
      Some (map (\<lambda>r. Inr (Yield (kv_key r) (JSON_stringify P (kv_value r)))) rs, it', w) \<and>
    it_items it' = replicate (j + length rs) Hole @ rest \<and>
    it_cursor it' = j + length rs \<and> it_limit it' = it_limit it \<and>
    it_params it' = it_params it"
  using assms
proof (induction rs arbitrary: it j)
  case Nil
  then show ?case by simp
next
  case (Cons r rs)
  let ?it1 = "it\<lparr>it_items := (it_items it)[it_cursor it := Hole], it_cursor := it_cursor it + 1\<rparr>"
  have "slot_at (it_items it) (it_cursor it) = Entry r"
    using Cons.prems by (simp add: slot_at_holes)
  then have step: "DynamoIterator_next P d q it w =
      Some (Inr (Yield (kv_key r) (JSON_stringify P (kv_value r))), ?it1, w)"
    by (rule next_on_entry)
  have "it_items ?it1 = replicate (Suc j) Hole @ map Entry rs @ rest" "it_cursor ?it1 = Suc j"
    using Cons.prems by (simp_all add: update_holes)
  from Cons.IH [OF this] obtain it' where
    "next_times (length rs) P d q ?it1 w =
      Some (map (\<lambda>r. Inr (Yield (kv_key r) (JSON_stringify P (kv_value r)))) rs, it', w)"
    "it_items it' = replicate (Suc j + length rs) Hole @ rest"
    "it_cursor it' = Suc j + length rs" "it_limit it' = it_limit ?it1"
    "it_params it' = it_params ?it1"
    by blast
  with step show ?case by simp
qed

text \<open>
  A call of \<^verbatim>\<open>next\<close> on an empty cell, with no limit reached: one query, whose records
  are pushed, and the call goes on with the new buffer.
\<close>

lemma next_fetches:
  fixes P :: "'n platform" and q :: "('t, 'e, 'w) query"
  assumes "slot_at (it_items it) (it_cursor it) = Hole"
    and "it_limit it \<noteq> Some (int (it_cursor it))"
    and "q w (it_params it) = (Inr data, w')"
    and "push_items P (db_schema d) (Items data) (it_items it) = (items, (None :: 'e error option))"
  shows "DynamoIterator_next P d q it w =
    DynamoIterator_next P d q
      (it\<lparr>it_items := (case LastEvaluatedKey data of None \<Rightarrow> items @ [Sentinel] | Some t \<Rightarrow> items),
          it_params := (it_params it)\<lparr>ExclusiveStartKey := LastEvaluatedKey data\<rparr>\<rparr>) w'"
  using assms by (subst DynamoIterator_next.simps) auto

text \<open>
  Reading one page of the paged provider: from an iterator that has read \<open>f\<close> records
  and holds none, the next \<open>min page (length its - f)\<close> calls of \<^verbatim>\<open>next\<close> make one
  query and hand over the records of the page.
\<close>

lemma next_times_page:
  fixes P :: "'n platform" and it :: "('n, nat) iterator"
  assumes dec: "list_all2 (\<lambda>i r. toKV P (db_schema d) i = (Inr r :: 'e error + 'n kv)) its rs"
    and items: "it_items it = replicate f Hole" and cursor: "it_cursor it = f"
    and lim: "it_limit it = None"
    and off: "(case ExclusiveStartKey (it_params it) of None \<Rightarrow> 0 | Some t \<Rightarrow> t) = f"
    and f: "f < length its" and page: "0 < page"
  shows "\<exists>it'. next_times (min page (length its - f)) P d
        (paged_query its page :: (nat, 'e, nat) query) it w =
      Some (map (\<lambda>r. Inr (Yield (kv_key r) (JSON_stringify P (kv_value r))))
              (take page (drop f rs)), it', Suc w) \<and>
    it_items it' = replicate (f + min page (length its - f)) Hole @
      (if f + page < length its then [] else [Sentinel]) \<and>
    it_cursor it' = f + min page (length its - f) \<and> it_limit it' = None \<and>
    ExclusiveStartKey (it_params it') = (if f + page < length its then Some (f + page) else None)"
proof -
  let ?q = "paged_query its page :: (nat, 'e, nat) query"
  let ?tok = "if f + page < length its then Some (f + page) else None"
  let ?data = "\<lparr>Items = take page (drop f its), LastEvaluatedKey = ?tok\<rparr>"
  let ?prs = "take page (drop f rs)"
  let ?tail = "(if f + page < length its then [] else [Sentinel]) :: 'n slot list"
  have len: "length rs = length its"
    using dec by (simp add: list_all2_lengthD)
  have plen: "length ?prs = min page (length its - f)"
    using len by simp
  then obtain r rest where prs: "?prs = r # rest"
    using f page by (cases ?prs) auto
  have query: "?q w (it_params it) = (Inr ?data, Suc w)"
    using off by (simp add: paged_query_def Let_def)
  have "list_all2 (\<lambda>i r. toKV P (db_schema d) i = (Inr r :: 'e error + 'n kv))
      (take page (drop f its)) ?prs"
    using dec by (intro list_all2_takeI list_all2_dropI)
  then have push: "push_items P (db_schema d) (Items ?data) (it_items it) =
      (replicate f Hole @ map Entry ?prs, (None :: 'e error option))"
    using items by (simp add: push_items_decoded)
  let ?it1 = "it\<lparr>it_items := (case LastEvaluatedKey ?data of
        None \<Rightarrow> (replicate f Hole @ map Entry ?prs) @ [Sentinel]
      | Some t \<Rightarrow> replicate f Hole @ map Entry ?prs),
      it_params := (it_params it)\<lparr>ExclusiveStartKey := LastEvaluatedKey ?data\<rparr>\<rparr>"
  have hole: "slot_at (it_items it) (it_cursor it) = Hole"
    by (simp add: items cursor slot_at_end)
  have nolim: "it_limit it \<noteq> Some (int (it_cursor it))"
    by (simp add: lim)
  have "DynamoIterator_next P d ?q it w = DynamoIterator_next P d ?q ?it1 (Suc w)"
    using hole nolim query push by (rule next_fetches [where q = "?q" and w = w and it = it])
  moreover have n: "min page (length its - f) = Suc (length rest)"
    using plen prs by simp
  ultimately have first: "next_times (min page (length its - f)) P d ?q it w =
      next_times (min page (length its - f)) P d ?q ?it1 (Suc w)"
    by simp
  have "it_items ?it1 = replicate f Hole @ map Entry ?prs @ ?tail" "it_cursor ?it1 = f"
    using cursor by simp_all
  from next_times_buffered [OF this, of P d ?q "Suc w", unfolded plen] obtain it' where
    run: "next_times (min page (length its - f)) P d ?q ?it1 (Suc w) =
      Some (map (\<lambda>r. Inr (Yield (kv_key r) (JSON_stringify P (kv_value r)))) ?prs, it', Suc w)"
    and its': "it_items it' = replicate (f + min page (length its - f)) Hole @ ?tail"
    and cur': "it_cursor it' = f + min page (length its - f)"
    and "it_limit it' = it_limit ?it1" and "it_params it' = it_params ?it1"
    by blast
  then have lim': "it_limit it' = None" and tok': "ExclusiveStartKey (it_params it') = ?tok"
    using lim by simp_all
  show ?thesis
    unfolding first using run its' cur' lim' tok' by blast
qed

lemma pages_last: "0 < n \<Longrightarrow> n \<le> p \<Longrightarrow> (n + p - 1) div p = (1 :: nat)"
proof -
  assume n: "0 < n" "n \<le> p"
  then have "p * 1 \<le> n + p - 1" "n + p - 1 < p * Suc 1"
    by simp_all
  then show ?thesis by (rule div_nat_eqI)
qed

lemma pages_step: "0 < p \<Longrightarrow> p < n \<Longrightarrow> (n + p - 1) div p = Suc ((n - p + p - 1) div p)"
proof -
  assume "0 < p" "p < n"
  then have "n + p - 1 = (n - p + p - 1) + p"
    by simp
  then show ?thesis
    using \<open>0 < p\<close> by (metis Suc_eq_plus1 div_add_self2 less_numeral_extra(3))
qed

text \<open>
  Reading the rest of the partition: from an iterator that has read \<open>f\<close> records and
  holds none, \<open>length its - f\<close> calls of \<^verbatim>\<open>next\<close> hand over the remaining records in
  order, with one query for each page of them.
\<close>

lemma next_times_pages:
  fixes P :: "'n platform" and it :: "('n, nat) iterator"
  assumes dec: "list_all2 (\<lambda>i r. toKV P (db_schema d) i = (Inr r :: 'e error + 'n kv)) its rs"
    and page: "0 < page"
  shows "f < length its \<Longrightarrow> it_items it = replicate f Hole \<Longrightarrow> it_cursor it = f \<Longrightarrow>
    it_limit it = None \<Longrightarrow>
    (case ExclusiveStartKey (it_params it) of None \<Rightarrow> 0 | Some t \<Rightarrow> t) = f \<Longrightarrow>
    \<exists>it'. next_times (length its - f) P d (paged_query its page :: (nat, 'e, nat) query) it w =
        Some (map (\<lambda>r. Inr (Yield (kv_key r) (JSON_stringify P (kv_value r)))) (drop f rs),
              it', w + (length its - f + page - 1) div page) \<and>
      it_items it' = replicate (length its) Hole @ [Sentinel] \<and> it_cursor it' = length its"
proof (induction "length its - f" arbitrary: f it w rule: less_induct)
  case less
  let ?q = "paged_query its page :: (nat, 'e, nat) query"
  let ?Y = "\<lambda>r :: 'n kv. (Inr (Yield (kv_key r) (JSON_stringify P (kv_value r)))
    :: 'e error + 'n yield)"
  let ?m = "min page (length its - f)"
  have len: "length rs = length its"
    using dec by (simp add: list_all2_lengthD)
  from next_times_page [OF dec less.prems(2-5) less.prems(1) page, of w]
  obtain it1 where run1: "next_times ?m P d ?q it w =
      Some (map ?Y (take page (drop f rs)), it1, Suc w)"
    and items1: "it_items it1 = replicate (f + ?m) Hole @
      (if f + page < length its then [] else [Sentinel])"
    and cursor1: "it_cursor it1 = f + ?m" and lim1: "it_limit it1 = None"
    and tok1: "ExclusiveStartKey (it_params it1) =
      (if f + page < length its then Some (f + page) else None)"
    by blast
  show ?case
  proof (cases "f + page < length its")
    case True
    then have m: "?m = page" by simp
    have smaller: "length its - (f + page) < length its - f"
      using True page by simp
    have items1': "it_items it1 = replicate (f + page) Hole"
      using items1 True m by simp
    have cursor1': "it_cursor it1 = f + page"
      using cursor1 m by simp
    have tok1': "(case ExclusiveStartKey (it_params it1) of None \<Rightarrow> 0 | Some t \<Rightarrow> t) = f + page"
      using tok1 True by simp
    from less.hyps [OF smaller True items1' cursor1' lim1 tok1', of "Suc w"]
    obtain it' where run2: "next_times (length its - (f + page)) P d ?q it1 (Suc w) =
        Some (map ?Y (drop (f + page) rs), it',
              Suc w + (length its - (f + page) + page - 1) div page)"
      and end': "it_items it' = replicate (length its) Hole @ [Sentinel]"
        "it_cursor it' = length its"
      by blast
    have split: "length its - f = page + (length its - (f + page))"
      using True by simp
    have recs: "take page (drop f rs) @ drop (f + page) rs = drop f rs"
      by (metis add.commute append_take_drop_id drop_drop)
    have "(length its - f + page - 1) div page =
        Suc ((length its - f - page + page - 1) div page)"
      using True page by (intro pages_step) simp_all
    then have calls: "Suc w + (length its - (f + page) + page - 1) div page =
        w + (length its - f + page - 1) div page"
      by simp
    have "next_times (page + (length its - (f + page))) P d ?q it w =
        Some (map ?Y (take page (drop f rs)) @ map ?Y (drop (f + page) rs), it',
              Suc w + (length its - (f + page) + page - 1) div page)"
      by (simp only: next_times_add run1 [unfolded m] run2 option.case prod.case)
    then have "next_times (length its - f) P d ?q it w =
        Some (map ?Y (drop f rs), it', w + (length its - f + page - 1) div page)"
      by (simp only: split [symmetric] map_append [symmetric] recs calls)
    with end' show ?thesis by blast
  next
    case False
    then have m: "?m = length its - f" by simp
    have recs: "take page (drop f rs) = drop f rs"
      using False len by simp
    have "(length its - f + page - 1) div page = 1"
      using False less.prems(1) by (intro pages_last) simp_all
    then have calls: "w + (length its - f + page - 1) div page = Suc w"
      by simp
    have "it_items it1 = replicate (length its) Hole @ [Sentinel]" "it_cursor it1 = length its"
      using items1 cursor1 False m less.prems(1) by simp_all
    moreover have "next_times (length its - f) P d ?q it w =
        Some (map ?Y (drop f rs), it1, w + (length its - f + page - 1) div page)"
      using run1 unfolding m recs calls .
    ultimately show ?thesis by blast
  qed
qed


text \<open>
  C6. Let an iterator be made with no limit, and let the provider hold a partition of
  \<open>N\<close> items that \<^verbatim>\<open>_toKV\<close> decodes, which it serves in pages of \<open>P\<close> items (\<open>0 < P < N\<close>),
  each with a token except the last. Then \<open>N\<close> calls of \<^verbatim>\<open>next\<close> hand over the \<open>N\<close> items
  in the provider's order, with \<open>\<lceil>N / P\<rceil>\<close> calls of \<^verbatim>\<open>query\<close> in all, and from then on any
  number of calls of \<^verbatim>\<open>next\<close> hand over the end of the sequence, each of them with no
  call of the provider and no change of the iterator.
\<close>

theorem pagination:
  fixes P :: "'n platform" and it :: "('n, nat) iterator"
  assumes "DynamoIterator P d opts = (Inr it :: 'e error + ('n, nat) iterator)"
    and "limit opts = - 1"
    and "0 < page" and "page < length its"
    and "\<forall>i \<in> set its. \<exists>r. toKV P (db_schema d) i = (Inr r :: 'e error + 'n kv)"
  shows "\<exists>it'.
    next_times (length its) P d (paged_query its page :: (nat, 'e, nat) query) it 0 =
      Some (map (yield_of P (db_schema d)) its, it', (length its + page - 1) div page) \<and>
    (\<forall>m. next_times m P d (paged_query its page :: (nat, 'e, nat) query) it'
            ((length its + page - 1) div page) =
          Some (replicate m (Inr End_of_sequence), it', (length its + page - 1) div page))"
proof -
  let ?q = "paged_query its page :: (nat, 'e, nat) query"
  from assms(5) obtain rs
    where dec: "list_all2 (\<lambda>i r. toKV P (db_schema d) i = (Inr r :: 'e error + 'n kv)) its rs"
    using decoded_records by blast
  have start: "it_items it = replicate 0 Hole" "it_cursor it = 0" "it_limit it = None"
    "(case ExclusiveStartKey (it_params it) of None \<Rightarrow> 0 | Some t \<Rightarrow> t) = 0"
    using assms(1,2)
    by (auto simp: DynamoIterator_def Let_def split: sum.splits option.splits)
  have some: "0 < length its"
    using assms(3,4) by (cases its) simp_all
  from next_times_pages [OF dec assms(3) some start, of 0]
  obtain it' where run: "next_times (length its) P d ?q it 0 =
      Some (map (\<lambda>r. Inr (Yield (kv_key r) (JSON_stringify P (kv_value r)))) rs, it',
            (length its + page - 1) div page)"
    and items': "it_items it' = replicate (length its) Hole @ [Sentinel]"
    and cursor': "it_cursor it' = length its"
    by auto
  have "slot_at (it_items it') (it_cursor it') = Sentinel"
    unfolding items' cursor' by (rule slot_at_holes)
  then have "\<forall>m. next_times m P d ?q it' ((length its + page - 1) div page) =
      Some (replicate m (Inr End_of_sequence), it', (length its + page - 1) div page)"
    by (simp add: next_times_on_sentinel)
  with run show ?thesis
    unfolding yield_of_decoded [OF dec] by blast
qed

theorem pagination_witness:
  "\<exists>(it :: (int, nat) iterator) it'.
     DynamoIterator demo
       \<lparr>table_name = ''t'',
        db_schema = \<lparr>hash_name = ''h'', hash_value = JStr ''H'', range_name = ''r''\<rparr>\<rparr>
       \<lparr>gt = None, gte = None, lt = None, lte = None, limit = - 1, reverse = False\<rparr> =
       (Inr it :: unit error + (int, nat) iterator) \<and>
     next_times 7 demo
       \<lparr>table_name = ''t'',
        db_schema = \<lparr>hash_name = ''h'', hash_value = JStr ''H'', range_name = ''r''\<rparr>\<rparr>
       (paged_query (example_items 7) 3 :: (nat, unit, nat) query) it 0 =
       Some (map (yield_of demo \<lparr>hash_name = ''h'', hash_value = JStr ''H'', range_name = ''r''\<rparr>)
               (example_items 7), it', 3) \<and>
     (\<forall>m. next_times m demo
        \<lparr>table_name = ''t'',
         db_schema = \<lparr>hash_name = ''h'', hash_value = JStr ''H'', range_name = ''r''\<rparr>\<rparr>
        (paged_query (example_items 7) 3 :: (nat, unit, nat) query) it' 3 =
        Some (replicate m (Inr End_of_sequence), it', 3))"
proof -
  let ?d = "\<lparr>table_name = ''t'',
    db_schema = \<lparr>hash_name = ''h'', hash_value = JStr ''H'', range_name = ''r''\<rparr>\<rparr> :: int db"
  let ?o = "\<lparr>gt = None, gte = None, lt = None, lte = None, limit = - 1, reverse = False\<rparr>
    :: int options"
  obtain it :: "(int, nat) iterator"
    where 1: "DynamoIterator demo ?d ?o = (Inr it :: unit error + (int, nat) iterator)"
    by (simp add: DynamoIterator_def Let_def lowerBound_def upperBound_def js_or_def
        own_prop_def range_condition_def)
  have 2: "limit ?o = - 1" by simp
  have 3: "0 < (3 :: nat)" by simp
  have 4: "3 < length (example_items 7)" by (simp add: example_items_def)
  have 5: "\<forall>i \<in> set (example_items 7).
      \<exists>r. toKV demo (db_schema ?d) i = (Inr r :: unit error + int kv)"
    by (simp add: example_items_def toKV_def)
  have 6: "length (example_items 7) = 7" "(7 + 3 - 1) div 3 = (3 :: nat)"
    by (simp_all add: example_items_def)
  from pagination [OF 1 2 3 4 5] obtain it' where
    "next_times 7 demo ?d (paged_query (example_items 7) 3 :: (nat, unit, nat) query) it 0 =
       Some (map (yield_of demo (db_schema ?d)) (example_items 7), it', 3)"
    "\<forall>m. next_times m demo ?d (paged_query (example_items 7) 3 :: (nat, unit, nat) query) it' 3 =
       Some (replicate m (Inr End_of_sequence), it', 3)"
    unfolding 6 by blast
  with 1 show ?thesis by auto
qed

text \<open>
  C5. The code does not do what the claim says. An iterator with the limit 5 reads a
  partition of 7 items from a provider that serves pages of 3 items: the first six
  calls of \<^verbatim>\<open>next\<close> hand over six items, the seventh the last item, and only the eighth
  the end of the sequence, after 3 calls of \<^verbatim>\<open>query\<close>. The cursor is compared with the
  limit only on an empty cell, which it reaches at 3, 6 and 7, never at 5.
\<close>

theorem limit_overrun:
  "case DynamoIterator demo
       \<lparr>table_name = ''t'',
        db_schema = \<lparr>hash_name = ''h'', hash_value = JStr ''H'', range_name = ''r''\<rparr>\<rparr>
       \<lparr>gt = None, gte = None, lt = None, lte = None, limit = 5, reverse = False\<rparr> of
     Inl (e :: unit error) \<Rightarrow> False
   | Inr (it :: (int, nat) iterator) \<Rightarrow>
       it_limit it = Some 5 \<and> Limit (it_params it) = Some 5 \<and>
       map_option (\<lambda>(rs, it', w). (rs, w))
         (next_times 8 demo
            \<lparr>table_name = ''t'',
             db_schema = \<lparr>hash_name = ''h'', hash_value = JStr ''H'', range_name = ''r''\<rparr>\<rparr>
            (paged_query (example_items 7) 3 :: (nat, unit, nat) query) it 0) =
       Some (map (\<lambda>i. Inr (Yield (JStr (digits i))
                                 (demo_stringify (JObj [(''r'', JStr (digits i))]))))
               [0..<7] @ [Inr End_of_sequence], 3)"
  by code_simp

end
